theory Spec2Isabelle
  imports Main
begin

section \<open>The script and its world\<close>

text \<open>
  The program is one TypeScript file, \<^verbatim>\<open>src/index.ts\<close>: \<^verbatim>\<open>main\<close> connects a MongoDB
  client, runs one of three monitor functions on the change stream of one collection for a
  fixed time, and closes the client. Everything the script does is a call into the driver,
  a timer, or a line on the console, so a run is modelled by the sequence of these actions,
  in the order the script performs them. What the driver answers (whether a promise
  resolves or rejects, which change arrives next) is an input of the model.
\<close>

type_synonym error = string

text \<open>
  A change event, as far as the script and its pipeline look at it: the value found at each
  field path (\<^verbatim>\<open>operationType\<close>, \<^verbatim>\<open>fullDocument.address.country\<close>, ...).
\<close>

type_synonym change_event = "(string \<times> string) list"

text \<open>An aggregation stage; the script only writes \<^verbatim>\<open>$match\<close> with equalities.\<close>

datatype stage = Match "(string \<times> string) list"

datatype console_line = Doc change_event | Msg string

text \<open>
  The actions of a run. \<open>Watch\<close> carries the two arguments of \<^verbatim>\<open>collection.watch\<close>:
  the pipeline and the optional resume point of its options argument.
\<close>

datatype action =
    NewClient string
  | ClientConnect
  | ClientClose
  | Watch "stage list" "string option"
  | On string
  | StreamPipe
  | SetTimeout nat
  | StreamClose
  | ConsoleLog console_line
  | ConsoleError error

type_synonym trace = "action list"

text \<open>
  How an awaited driver call settles, and how a function of the script ends: it returns, it
  throws to its caller, or an exception that nothing catches ends the process while the
  function is suspended (\<open>Uncaught\<close>); then nothing of the script runs any more, neither a
  \<^verbatim>\<open>finally\<close> block nor a \<^verbatim>\<open>catch\<close> handler.
\<close>

datatype 'a outcome = Resolves 'a | Rejects error

datatype completion = Returned | Threw error | Uncaught error

subsection \<open>The driver, as far as the script depends on it\<close>

text \<open>
  The server applies the pipeline before an event reaches the change stream: an event passes
  a \<^verbatim>\<open>$match\<close> stage when every listed path holds the listed value, and it is delivered
  when it passes every stage. The empty pipeline lets every event through.
\<close>

fun passes_stage :: "stage \<Rightarrow> change_event \<Rightarrow> bool" where
  "passes_stage (Match conds) ev = list_all (\<lambda>(path, v). map_of ev path = Some v) conds"

definition passes :: "stage list \<Rightarrow> change_event \<Rightarrow> bool" where
  "passes pipeline ev = list_all (\<lambda>s. passes_stage s ev) pipeline"

definition delivered :: "stage list \<Rightarrow> change_event list \<Rightarrow> change_event list" where
  "delivered pipeline changes = filter (passes pipeline) changes"

text \<open>
  An event emitter: listeners registered under a name, called in registration order when
  that name is emitted.
\<close>

type_synonym listener = "change_event \<Rightarrow> trace \<Rightarrow> trace"

definition on :: "(string \<times> listener) list \<Rightarrow> string \<Rightarrow> listener \<Rightarrow> (string \<times> listener) list" where
  "on ls name h = ls @ [(name, h)]"

definition emit :: "(string \<times> listener) list \<Rightarrow> string \<Rightarrow> change_event \<Rightarrow> trace \<Rightarrow> trace" where
  "emit ls name ev tr = fold (\<lambda>(n, h) t. if n = name then h ev t else t) ls tr"

text \<open>
  An \<^verbatim>\<open>'error'\<close> emitted on an emitter that has no listener registered under that name is
  thrown instead. The change stream emits it from the driver's own callbacks, where nothing
  catches it: the exception is uncaught.
\<close>

definition unhandled_error :: "(string \<times> listener) list \<Rightarrow> error option \<Rightarrow> error option" where
  "unhandled_error ls fault =
     (case fault of
        None \<Rightarrow> None
      | Some e \<Rightarrow> if ''error'' \<in> set (map fst ls) then None else Some e)"

text \<open>
  A readable stream piped into a writable one in object mode: each chunk is handed to the
  writable's \<^verbatim>\<open>write\<close>, and the next chunk is handed over only after \<^verbatim>\<open>write\<close> has
  called its callback (the boolean of the result).
\<close>

type_synonym writable = "change_event \<Rightarrow> trace \<Rightarrow> trace \<times> bool"

fun pipe :: "change_event list \<Rightarrow> writable \<Rightarrow> trace \<Rightarrow> trace" where
  "pipe [] w tr = tr"
| "pipe (doc # docs) w tr =
     (case w doc tr of (tr', called_back) \<Rightarrow> if called_back then pipe docs w tr' else tr')"

text \<open>
  What the driver answers to one turn of the pull loop, or what else happens while the loop
  is suspended:
  \<^item> \<open>Yields ev\<close>: \<^verbatim>\<open>hasNext()\<close> resolves to true and \<^verbatim>\<open>next()\<close> resolves to \<open>ev\<close>;
  \<^item> \<open>Ends\<close>: \<^verbatim>\<open>hasNext()\<close> resolves to false;
  \<^item> \<open>HasNextRejects e c\<close>: \<^verbatim>\<open>hasNext()\<close> rejects with \<open>e\<close>;
  \<^item> \<open>NextRejects e c\<close>: \<^verbatim>\<open>hasNext()\<close> resolves to true and \<^verbatim>\<open>next()\<close> rejects with \<open>e\<close>;
  \<^item> \<open>Timer\<close>: the timer set by \<^verbatim>\<open>closeChangeStream\<close> fires.
  The flag \<open>c\<close> says whether the driver itself closed the stream when it raised the error.
\<close>

datatype reply =
    Yields change_event
  | Ends
  | HasNextRejects error bool
  | NextRejects error bool
  | Timer

text \<open>Events the pipeline rejects never reach the cursor.\<close>

fun reaches_cursor :: "stage list \<Rightarrow> reply \<Rightarrow> bool" where
  "reaches_cursor pipeline (Yields ev) = passes pipeline ev"
| "reaches_cursor pipeline r = True"

section \<open>The functions of the script\<close>

text \<open>The default parameters \<^verbatim>\<open>timeInMs = 60000\<close> and \<^verbatim>\<open>pipeline = []\<close>.\<close>

definition timeInMs_or_default :: "nat option \<Rightarrow> nat" where
  "timeInMs_or_default timeInMs = (case timeInMs of None \<Rightarrow> 60000 | Some t \<Rightarrow> t)"

definition pipeline_or_default :: "stage list option \<Rightarrow> stage list" where
  "pipeline_or_default pipeline = (case pipeline of None \<Rightarrow> [] | Some p \<Rightarrow> p)"

subsection \<open>closeChangeStream\<close>

text \<open>
  \<^verbatim>\<open>closeChangeStream(timeInMs = 60000, changeStream)\<close> sets a timer and returns a promise.
  When the timer fires, its callback logs, closes the change stream and resolves the promise.
\<close>

definition closeChangeStream :: "nat option \<Rightarrow> trace \<Rightarrow> trace" where
  "closeChangeStream timeInMs tr =
     tr @ [SetTimeout (timeInMs_or_default timeInMs)]"

definition timer_callback :: "trace \<Rightarrow> trace" where
  "timer_callback tr = tr @ [ConsoleLog (Msg ''Closing the change stream''), StreamClose]"

text \<open>
  \<^verbatim>\<open>await closeChangeStream(...)\<close>: the caller is suspended until the callback has run;
  \<open>meanwhile\<close> is what the event loop does in between, and the uncaught exception, if any,
  that ends the process before the timer fires.
\<close>

definition await_closeChangeStream ::
  "nat option \<Rightarrow> (trace \<Rightarrow> trace \<times> error option) \<Rightarrow> trace \<Rightarrow> completion \<times> trace" where
  "await_closeChangeStream timeInMs meanwhile tr =
     (case meanwhile (closeChangeStream timeInMs tr) of
        (tr', None) \<Rightarrow> (Returned, timer_callback tr')
      | (tr', Some e) \<Rightarrow> (Uncaught e, tr'))"

subsection \<open>monitorListingsUsingEventEmitter\<close>

text \<open>
  Arguments of the model: how \<^verbatim>\<open>watch\<close> settles, the changes made to the collection
  while the stream is open, the \<^verbatim>\<open>'error'\<close>, if any, that the change stream emits after
  them and before the timer fires, and the two optional parameters \<^verbatim>\<open>timeInMs = 60000\<close>
  and \<^verbatim>\<open>pipeline = []\<close>. The function registers a listener for \<^verbatim>\<open>'change'\<close> only.
\<close>

definition monitorListingsUsingEventEmitter ::
  "unit outcome \<Rightarrow> change_event list \<Rightarrow> error option \<Rightarrow> nat option \<Rightarrow> stage list option
    \<Rightarrow> trace \<Rightarrow> completion \<times> trace" where
  "monitorListingsUsingEventEmitter watched changes fault timeInMs pipeline tr =
     (let t = timeInMs_or_default timeInMs;
          p = pipeline_or_default pipeline;
          tr1 = tr @ [Watch p None]
      in case watched of
           Rejects e \<Rightarrow> (Threw e, tr1)
         | Resolves _ \<Rightarrow>
             (let ls = on [] ''change'' (\<lambda>next t. t @ [ConsoleLog (Doc next)]);
                  tr2 = tr1 @ [On ''change'']
              in await_closeChangeStream (Some t)
                   (\<lambda>tr. (fold (emit ls ''change'') (delivered p changes) tr,
                          unhandled_error ls fault))
                   tr2))"

subsection \<open>monitorListingsUsingHasNext\<close>

text \<open>The \<^verbatim>\<open>catch\<close> block: swallow the error when the stream is closed, rethrow it otherwise.\<close>

definition catch_block :: "error \<Rightarrow> bool \<Rightarrow> trace \<Rightarrow> completion \<times> trace" where
  "catch_block err isClosed tr =
     (if isClosed
      then (Returned,
            tr @ [ConsoleLog (Msg ''The change stream is closed. Will not wait on any more changes.'')])
      else (Threw err, tr))"

text \<open>
  The \<^verbatim>\<open>while (await changeStream.hasNext())\<close> loop inside its \<^verbatim>\<open>try\<close>. \<open>fired\<close> says
  whether the timer's callback has already closed the stream. When the driver never settles
  the pending \<^verbatim>\<open>hasNext()\<close> the loop does not return: the result is \<open>None\<close>.
\<close>

fun hasNext_loop :: "reply list \<Rightarrow> bool \<Rightarrow> trace \<Rightarrow> (completion \<times> trace) option" where
  "hasNext_loop [] fired tr = None"
| "hasNext_loop (Timer # rs) fired tr =
     hasNext_loop rs True (if fired then tr else timer_callback tr)"
| "hasNext_loop (Yields ev # rs) fired tr = hasNext_loop rs fired (tr @ [ConsoleLog (Doc ev)])"
| "hasNext_loop (Ends # rs) fired tr = Some (Returned, tr)"
| "hasNext_loop (HasNextRejects err c # rs) fired tr = Some (catch_block err (fired \<or> c) tr)"
| "hasNext_loop (NextRejects err c # rs) fired tr = Some (catch_block err (fired \<or> c) tr)"

definition monitorListingsUsingHasNext ::
  "unit outcome \<Rightarrow> reply list \<Rightarrow> nat option \<Rightarrow> stage list option \<Rightarrow> trace
    \<Rightarrow> (completion \<times> trace) option" where
  "monitorListingsUsingHasNext watched replies timeInMs pipeline tr =
     (let t = timeInMs_or_default timeInMs;
          p = pipeline_or_default pipeline;
          tr1 = tr @ [Watch p None]
      in case watched of
           Rejects e \<Rightarrow> Some (Threw e, tr1)
         | Resolves _ \<Rightarrow>
             hasNext_loop (filter (reaches_cursor p) replies) False
               (closeChangeStream (Some t) tr1))"

subsection \<open>monitorListingsUsingStreamAPI\<close>

text \<open>
  The same arguments. The function registers no listener at all on the stream it pipes, so an
  \<^verbatim>\<open>'error'\<close> of that stream is unhandled as well.
\<close>

definition monitorListingsUsingStreamAPI ::
  "unit outcome \<Rightarrow> change_event list \<Rightarrow> error option \<Rightarrow> nat option \<Rightarrow> stage list option
    \<Rightarrow> trace \<Rightarrow> completion \<times> trace" where
  "monitorListingsUsingStreamAPI watched changes fault timeInMs pipeline tr =
     (let t = timeInMs_or_default timeInMs;
          p = pipeline_or_default pipeline;
          tr1 = tr @ [Watch p None]
      in case watched of
           Rejects e \<Rightarrow> (Threw e, tr1)
         | Resolves _ \<Rightarrow>
             (let write = (\<lambda>doc t. (t @ [ConsoleLog (Doc doc)], True));
                  tr2 = tr1 @ [StreamPipe]
              in await_closeChangeStream (Some t)
                   (\<lambda>tr. (pipe (delivered p changes) write tr, unhandled_error [] fault))
                   tr2))"

subsection \<open>main\<close>

text \<open>What the world answers to one run of \<^verbatim>\<open>main\<close>.\<close>

record world =
  mongo_db_uri :: "string option"
  construct_reply :: "unit outcome"
  connect_reply :: "unit outcome"
  watch_reply :: "unit outcome"
  changes :: "change_event list"
  stream_error :: "error option"
  close_reply :: "unit outcome"

text \<open>\<^verbatim>\<open>process.env.MONGO_DB_URI || 'mongodb://localhost:27017'\<close>: unset and empty are falsy.\<close>

definition uri :: "string option \<Rightarrow> string" where
  "uri v = (case v of None \<Rightarrow> ''mongodb://localhost:27017''
            | Some s \<Rightarrow> if s = [] then ''mongodb://localhost:27017'' else s)"

text \<open>The pipeline that \<^verbatim>\<open>main\<close> defines.\<close>

definition main_pipeline :: "stage list" where
  "main_pipeline =
     [Match [(''operationType'', ''insert''),
             (''fullDocument.address.country'', ''Australia''),
             (''fullDocument.address.market'', ''Sydney'')]]"

text \<open>
  The \<^verbatim>\<open>try\<close> block of \<^verbatim>\<open>main\<close>: connect, log, and the one monitor call that is not
  commented out, \<^verbatim>\<open>monitorListingsUsingEventEmitter(client, 30000)\<close>.
\<close>

definition main_try :: "world \<Rightarrow> trace \<Rightarrow> completion \<times> trace" where
  "main_try w tr =
     (case connect_reply w of
        Rejects e \<Rightarrow> (Threw e, tr @ [ClientConnect])
      | Resolves _ \<Rightarrow>
          monitorListingsUsingEventEmitter (watch_reply w) (changes w) (stream_error w)
            (Some 30000) None
            (tr @ [ClientConnect, ConsoleLog (Msg ''Connected successfully to mongodb'')]))"

text \<open>
  \<^verbatim>\<open>main\<close>: the client is constructed outside the \<^verbatim>\<open>try\<close>; the \<^verbatim>\<open>finally\<close> block
  closes it, and an error of \<^verbatim>\<open>close\<close> replaces the completion of the \<^verbatim>\<open>try\<close> block.
  When the process ends while \<^verbatim>\<open>main\<close> awaits the monitor, the \<^verbatim>\<open>finally\<close> block does
  not run.
\<close>

definition main :: "world \<Rightarrow> completion \<times> trace" where
  "main w =
     (case construct_reply w of
        Rejects e \<Rightarrow> (Threw e, [NewClient (uri (mongo_db_uri w))])
      | Resolves _ \<Rightarrow>
          (case main_try w [NewClient (uri (mongo_db_uri w))] of
             (c, tr) \<Rightarrow>
               (case c of
                  Uncaught e \<Rightarrow> (Uncaught e, tr)
                | _ \<Rightarrow>
                    (case close_reply w of
                       Rejects e \<Rightarrow> (Threw e, tr @ [ClientClose])
                     | Resolves _ \<Rightarrow> (c, tr @ [ClientClose])))))"

text \<open>
  The top level: \<^verbatim>\<open>main().catch(console.error)\<close>. The handler runs when \<^verbatim>\<open>main\<close>
  throws, not when the process has ended.
\<close>

definition script :: "world \<Rightarrow> trace" where
  "script w =
     (case main w of
        (Returned, tr) \<Rightarrow> tr
      | (Threw e, tr) \<Rightarrow> tr @ [ConsoleError e]
      | (Uncaught e, tr) \<Rightarrow> tr)"

section \<open>Observations on a run\<close>

text \<open>The documents printed on the console, in the order they were printed.\<close>

fun printed_docs :: "trace \<Rightarrow> change_event list" where
  "printed_docs [] = []"
| "printed_docs (ConsoleLog (Doc d) # tr) = d # printed_docs tr"
| "printed_docs (a # tr) = printed_docs tr"

text \<open>The calls of \<^verbatim>\<open>collection.watch\<close> made during a run.\<close>

fun is_watch :: "action \<Rightarrow> bool" where
  "is_watch (Watch p r) = True"
| "is_watch a = False"

definition watch_calls :: "trace \<Rightarrow> action list" where
  "watch_calls tr = filter is_watch tr"



text \<open>Whether a function of the script completed: it returned or threw to its caller.\<close>

fun completes :: "completion \<Rightarrow> bool" where
  "completes (Uncaught e) = False"
| "completes c = True"

text \<open>
  Replies after which the pull loop goes on (an event, or the timer firing while the loop is
  suspended), and the events among a list of replies.
\<close>

fun continues :: "reply \<Rightarrow> bool" where
  "continues (Yields ev) = True"
| "continues Timer = True"
| "continues r = False"

fun yielded :: "reply list \<Rightarrow> change_event list" where
  "yielded [] = []"
| "yielded (Yields ev # rs) = ev # yielded rs"
| "yielded (r # rs) = yielded rs"

section \<open>Basic facts\<close>

lemma printed_docs_append: "printed_docs (xs @ ys) = printed_docs xs @ printed_docs ys"
  by (induction xs rule: printed_docs.induct) simp_all

lemma yielded_map_Yields: "yielded (map Yields evs) = evs"
  by (induction evs) simp_all

lemma continues_map_Yields: "list_all continues (map Yields evs)"
  by (induction evs) simp_all

lemma yielded_filter_reaches:
  "yielded (filter (reaches_cursor p) rs) = delivered p (yielded rs)"
  by (induction rs rule: yielded.induct) (simp_all add: delivered_def)

lemma continues_filter: "list_all continues rs \<Longrightarrow> list_all continues (filter P rs)"
  by (induction rs) simp_all

lemma Timer_filter_reaches: "Timer \<in> set (filter (reaches_cursor p) rs) \<longleftrightarrow> Timer \<in> set rs"
  by (induction rs) auto

lemma hasNext_loop_prefix:
  "list_all continues pre \<Longrightarrow>
     \<exists>tr'. printed_docs tr' = printed_docs tr @ yielded pre
       \<and> watch_calls tr' = watch_calls tr
       \<and> (\<forall>r rest. hasNext_loop (pre @ r # rest) fired tr
             = hasNext_loop (r # rest) (fired \<or> Timer \<in> set pre) tr')"
proof (induction pre arbitrary: fired tr)
  case Nil
  show ?case by (rule exI [of _ tr]) simp
next
  case (Cons a pre)
  then have rest: "list_all continues pre" and a: "continues a" by simp_all
  show ?case
  proof (cases a)
    case (Yields ev)
    from Cons.IH [OF rest, of "tr @ [ConsoleLog (Doc ev)]" fired]
    obtain tr' where "printed_docs tr' = printed_docs (tr @ [ConsoleLog (Doc ev)]) @ yielded pre"
      and "watch_calls tr' = watch_calls (tr @ [ConsoleLog (Doc ev)])"
      and "\<forall>r rest. hasNext_loop (pre @ r # rest) fired (tr @ [ConsoleLog (Doc ev)])
             = hasNext_loop (r # rest) (fired \<or> Timer \<in> set pre) tr'"
      by blast
    with Yields show ?thesis
      by (intro exI [of _ tr']) (simp add: printed_docs_append watch_calls_def)
  next
    case Timer
    from Cons.IH [OF rest, of "if fired then tr else timer_callback tr" True]
    obtain tr' where "printed_docs tr' = printed_docs (if fired then tr else timer_callback tr) @ yielded pre"
      and "watch_calls tr' = watch_calls (if fired then tr else timer_callback tr)"
      and "\<forall>r rest. hasNext_loop (pre @ r # rest) True (if fired then tr else timer_callback tr)
             = hasNext_loop (r # rest) (True \<or> Timer \<in> set pre) tr'"
      by blast
    with Timer show ?thesis
      by (intro exI [of _ tr'])
        (cases fired; simp add: printed_docs_append watch_calls_def timer_callback_def)
  qed (use a in simp_all)
qed

lemma fold_emit_change:
  "fold (emit (on [] ''change'' (\<lambda>next t. t @ [ConsoleLog (Doc next)])) ''change'') evs tr
     = tr @ map (\<lambda>ev. ConsoleLog (Doc ev)) evs"
  by (induction evs arbitrary: tr) (simp_all add: emit_def on_def)

lemma pipe_write:
  "pipe docs (\<lambda>doc t. (t @ [ConsoleLog (Doc doc)], True)) tr
     = tr @ map (\<lambda>ev. ConsoleLog (Doc ev)) docs"
  by (induction docs arbitrary: tr) simp_all

lemma printed_docs_map_Doc: "printed_docs (map (\<lambda>ev. ConsoleLog (Doc ev)) evs) = evs"
  by (induction evs) simp_all

lemma watch_calls_map_Doc: "watch_calls (map (\<lambda>ev. ConsoleLog (Doc ev)) evs) = []"
  by (induction evs) (simp_all add: watch_calls_def)


lemma monitor_hasNext_prefix:
  assumes "list_all continues pre"
  shows "\<exists>tr'. printed_docs tr' = printed_docs tr @ delivered (pipeline_or_default p) (yielded pre)
       \<and> watch_calls tr' = watch_calls tr @ [Watch (pipeline_or_default p) None]
       \<and> (\<forall>r rest. \<not> continues r \<longrightarrow>
            monitorListingsUsingHasNext (Resolves ()) (pre @ r # rest) t p tr
              = hasNext_loop [r] (Timer \<in> set pre) tr')"
proof -
  let ?p = "pipeline_or_default p"
  let ?tr0 = "closeChangeStream (Some (timeInMs_or_default t)) (tr @ [Watch ?p None])"
  have "list_all continues (filter (reaches_cursor ?p) pre)"
    using assms by (rule continues_filter)
  from hasNext_loop_prefix [OF this, of ?tr0 False]
  obtain tr' where docs: "printed_docs tr' = printed_docs ?tr0 @ yielded (filter (reaches_cursor ?p) pre)"
    and w: "watch_calls tr' = watch_calls ?tr0"
    and run: "\<And>r rest. hasNext_loop (filter (reaches_cursor ?p) pre @ r # rest) False ?tr0
             = hasNext_loop (r # rest) (False \<or> Timer \<in> set (filter (reaches_cursor ?p) pre)) tr'"
    by blast
  have "printed_docs tr' = printed_docs tr @ delivered ?p (yielded pre)"
    using docs by (simp add: yielded_filter_reaches closeChangeStream_def printed_docs_append)
  moreover have "watch_calls tr' = watch_calls tr @ [Watch ?p None]"
    using w by (simp add: closeChangeStream_def watch_calls_def)
  moreover have "monitorListingsUsingHasNext (Resolves ()) (pre @ r # rest) t p tr
              = hasNext_loop [r] (Timer \<in> set pre) tr'" if "\<not> continues r" for r rest
  proof -
    have keep: "reaches_cursor ?p r" using that by (cases r) simp_all
    have "monitorListingsUsingHasNext (Resolves ()) (pre @ r # rest) t p tr
        = hasNext_loop (filter (reaches_cursor ?p) pre @ r # filter (reaches_cursor ?p) rest) False ?tr0"
      using keep by (simp add: monitorListingsUsingHasNext_def Let_def)
    also have "\<dots> = hasNext_loop (r # filter (reaches_cursor ?p) rest) (Timer \<in> set pre) tr'"
      using run by (simp add: Timer_filter_reaches)
    also have "\<dots> = hasNext_loop [r] (Timer \<in> set pre) tr'"
      using that by (cases r) simp_all
    finally show ?thesis .
  qed
  ultimately show ?thesis by blast
qed

lemma unhandled_error_change_only: "unhandled_error (on [] ''change'' h) f = f"
  by (cases f) (simp_all add: unhandled_error_def on_def)

lemma unhandled_error_no_listener: "unhandled_error [] f = f"
  by (cases f) (simp_all add: unhandled_error_def)

lemma monitor_emitter_trace:
  "monitorListingsUsingEventEmitter (Resolves ()) evs None t p tr =
     (Returned,
      tr @ [Watch (pipeline_or_default p) None, On ''change'',
            SetTimeout (timeInMs_or_default t)]
         @ map (\<lambda>ev. ConsoleLog (Doc ev)) (delivered (pipeline_or_default p) evs)
         @ [ConsoleLog (Msg ''Closing the change stream''), StreamClose])"
  by (simp add: monitorListingsUsingEventEmitter_def Let_def await_closeChangeStream_def
      closeChangeStream_def timer_callback_def fold_emit_change timeInMs_or_default_def
      unhandled_error_change_only)

lemma monitor_emitter_fault:
  "monitorListingsUsingEventEmitter (Resolves ()) evs (Some e) t p tr =
     (Uncaught e,
      tr @ [Watch (pipeline_or_default p) None, On ''change'',
            SetTimeout (timeInMs_or_default t)]
         @ map (\<lambda>ev. ConsoleLog (Doc ev)) (delivered (pipeline_or_default p) evs))"
  by (simp add: monitorListingsUsingEventEmitter_def Let_def await_closeChangeStream_def
      closeChangeStream_def fold_emit_change timeInMs_or_default_def
      unhandled_error_change_only)

lemma monitor_stream_trace:
  "monitorListingsUsingStreamAPI (Resolves ()) evs None t p tr =
     (Returned,
      tr @ [Watch (pipeline_or_default p) None, StreamPipe,
            SetTimeout (timeInMs_or_default t)]
         @ map (\<lambda>ev. ConsoleLog (Doc ev)) (delivered (pipeline_or_default p) evs)
         @ [ConsoleLog (Msg ''Closing the change stream''), StreamClose])"
  by (simp add: monitorListingsUsingStreamAPI_def Let_def await_closeChangeStream_def
      closeChangeStream_def timer_callback_def pipe_write timeInMs_or_default_def
      unhandled_error_no_listener)

lemma monitor_stream_fault:
  "monitorListingsUsingStreamAPI (Resolves ()) evs (Some e) t p tr =
     (Uncaught e,
      tr @ [Watch (pipeline_or_default p) None, StreamPipe,
            SetTimeout (timeInMs_or_default t)]
         @ map (\<lambda>ev. ConsoleLog (Doc ev)) (delivered (pipeline_or_default p) evs))"
  by (simp add: monitorListingsUsingStreamAPI_def Let_def await_closeChangeStream_def
      closeChangeStream_def pipe_write timeInMs_or_default_def
      unhandled_error_no_listener)

lemma monitor_emitter_docs:
  "printed_docs (snd (monitorListingsUsingEventEmitter (Resolves ()) evs f t p tr))
     = printed_docs tr @ delivered (pipeline_or_default p) evs"
  by (cases f)
    (simp_all add: monitor_emitter_trace monitor_emitter_fault printed_docs_append
      printed_docs_map_Doc)

lemma monitor_stream_docs:
  "printed_docs (snd (monitorListingsUsingStreamAPI (Resolves ()) evs f t p tr))
     = printed_docs tr @ delivered (pipeline_or_default p) evs"
  by (cases f)
    (simp_all add: monitor_stream_trace monitor_stream_fault printed_docs_append
      printed_docs_map_Doc)

lemma delivered_all: "list_all (passes p) evs \<Longrightarrow> delivered p evs = evs"
  by (induction evs) (simp_all add: delivered_def)





text \<open>
  \<^verbatim>\<open>main\<close> completes on every path but one: the client connects, the stream opens, and
  the stream then emits an \<^verbatim>\<open>'error'\<close>.
\<close>

lemma main_completes_iff:
  "completes (fst (main w)) \<longleftrightarrow>
     \<not> (construct_reply w = Resolves () \<and> connect_reply w = Resolves ()
        \<and> watch_reply w = Resolves () \<and> stream_error w \<noteq> None)"
proof (cases "construct_reply w")
  case (Rejects e)
  then show ?thesis by (simp add: main_def)
next
  case c: (Resolves u)
  show ?thesis
  proof (cases "connect_reply w")
    case (Rejects e)
    with c show ?thesis
      by (cases "close_reply w") (simp_all add: main_def main_try_def)
  next
    case k: (Resolves u')
    show ?thesis
    proof (cases "watch_reply w")
      case (Rejects e)
      with c k show ?thesis
        by (cases "close_reply w")
          (simp_all add: main_def main_try_def monitorListingsUsingEventEmitter_def Let_def)
    next
      case wr: (Resolves u'')
      then have wr': "watch_reply w = Resolves ()" by simp
      show ?thesis
      proof (cases "stream_error w")
        case None
        with c k wr' show ?thesis
          by (cases "close_reply w") (simp_all add: main_def main_try_def monitor_emitter_trace)
      next
        case (Some e)
        with c k wr' show ?thesis
          by (simp add: main_def main_try_def monitor_emitter_fault)
      qed
    qed
  qed
qed

section \<open>The pull loop's error handling\<close>

text \<open>
  Claim C10. In \<^verbatim>\<open>monitorListingsUsingHasNext\<close>, take any run of the loop that has gone
  on through the replies \<open>pre\<close> (events delivered, possibly the timer firing) and then meets
  an error, thrown by \<^verbatim>\<open>hasNext()\<close> or by \<^verbatim>\<open>next()\<close>. If the change stream is closed
  at that moment (the timer's callback has closed it, or the driver closed it when it raised
  the error) the function returns normally, having logged one more line after everything it
  had logged so far; if the stream is not closed, the function throws that same error.
  \<open>tr'\<close> is the trace the function would have returned with, had the stream ended at that
  point instead.
\<close>

theorem hasNext_error_swallowed_when_closed_else_rethrown:
  assumes "list_all continues pre"
  shows "\<exists>tr'. monitorListingsUsingHasNext (Resolves ()) (pre @ Ends # rest) t p tr
            = Some (Returned, tr')
       \<and> monitorListingsUsingHasNext (Resolves ()) (pre @ HasNextRejects err c # rest) t p tr
            = Some (if Timer \<in> set pre \<or> c
                    then (Returned, tr' @ [ConsoleLog
                      (Msg ''The change stream is closed. Will not wait on any more changes.'')])
                    else (Threw err, tr'))
       \<and> monitorListingsUsingHasNext (Resolves ()) (pre @ NextRejects err c # rest) t p tr
            = Some (if Timer \<in> set pre \<or> c
                    then (Returned, tr' @ [ConsoleLog
                      (Msg ''The change stream is closed. Will not wait on any more changes.'')])
                    else (Threw err, tr'))"
proof -
  from monitor_hasNext_prefix [OF assms, of tr p t]
  obtain tr' where run: "\<And>r rest. \<not> continues r \<Longrightarrow>
      monitorListingsUsingHasNext (Resolves ()) (pre @ r # rest) t p tr
        = hasNext_loop [r] (Timer \<in> set pre) tr'"
    by blast
  show ?thesis
    by (rule exI [of _ tr']) (simp add: run catch_block_def)
qed

theorem hasNext_error_witness:
  "list_all continues [Yields [(''operationType'', ''insert'')], Timer]
   \<and> monitorListingsUsingHasNext (Resolves ())
        ([Yields [(''operationType'', ''insert'')], Timer] @ HasNextRejects ''closed'' False # [])
        (Some 30000) None []
      = Some (Returned,
          [Watch [] None, SetTimeout 30000, ConsoleLog (Doc [(''operationType'', ''insert'')]),
           ConsoleLog (Msg ''Closing the change stream''), StreamClose,
           ConsoleLog (Msg ''The change stream is closed. Will not wait on any more changes.'')])
   \<and> list_all continues [Yields [(''operationType'', ''insert'')]]
   \<and> monitorListingsUsingHasNext (Resolves ())
        ([Yields [(''operationType'', ''insert'')]] @ NextRejects ''network'' False # [])
        (Some 30000) None []
      = Some (Threw ''network'',
          [Watch [] None, SetTimeout 30000, ConsoleLog (Doc [(''operationType'', ''insert'')])])"
proof -
  have a: "list_all continues [Yields [(''operationType'', ''insert'')], Timer]" by simp
  have b: "list_all continues [Yields [(''operationType'', ''insert'')]]" by simp
  show ?thesis
    using hasNext_error_swallowed_when_closed_else_rethrown
        [OF a, of "[]" "Some 30000" None "[]" "''closed''" False]
      hasNext_error_swallowed_when_closed_else_rethrown
        [OF b, of "[]" "Some 30000" None "[]" "''network''" False]
    by (simp add: monitorListingsUsingHasNext_def timeInMs_or_default_def
        pipeline_or_default_def closeChangeStream_def timer_callback_def passes_def
        catch_block_def)
qed

section \<open>Delivery of events to the handler\<close>

text \<open>
  Claim C2. Let one connection produce the events \<open>evs\<close> (they pass the pipeline the stream
  was opened with) and deliver them without error. The pull loop
  (\<^verbatim>\<open>monitorListingsUsingHasNext\<close>; \<open>pre\<close> is the sequence of its turns, in which the timer
  may fire between two events, and the stream then ends) and the \<^verbatim>\<open>'change'\<close> listener
  (\<^verbatim>\<open>monitorListingsUsingEventEmitter\<close>, the stream emitting no \<^verbatim>\<open>'error'\<close>) each print
  exactly the documents \<open>evs\<close>, after whatever was printed before: one line per event, in
  arrival order, so the handler has run \<open>length evs\<close> times. A run is a sequence of actions:
  one handler call is over before the next begins.
\<close>

theorem each_event_handled_once_in_arrival_order:
  assumes "list_all continues pre" and "yielded pre = evs"
    and "list_all (passes (pipeline_or_default p)) evs"
  shows "(\<exists>tr'. monitorListingsUsingHasNext (Resolves ()) (pre @ Ends # rest) t p tr
              = Some (Returned, tr')
            \<and> printed_docs tr' = printed_docs tr @ evs)
       \<and> (\<exists>tr'. monitorListingsUsingEventEmitter (Resolves ()) evs None t p tr = (Returned, tr')
            \<and> printed_docs tr' = printed_docs tr @ evs)"
proof
  from monitor_hasNext_prefix [OF assms(1), of tr p t]
  obtain tr' where docs: "printed_docs tr' = printed_docs tr @ delivered (pipeline_or_default p) (yielded pre)"
    and run: "\<And>r rest. \<not> continues r \<Longrightarrow>
      monitorListingsUsingHasNext (Resolves ()) (pre @ r # rest) t p tr
        = hasNext_loop [r] (Timer \<in> set pre) tr'"
    by blast
  show "\<exists>tr'. monitorListingsUsingHasNext (Resolves ()) (pre @ Ends # rest) t p tr
              = Some (Returned, tr')
            \<and> printed_docs tr' = printed_docs tr @ evs"
    using docs assms(2,3) by (intro exI [of _ tr']) (simp add: run delivered_all)
next
  show "\<exists>tr'. monitorListingsUsingEventEmitter (Resolves ()) evs None t p tr = (Returned, tr')
            \<and> printed_docs tr' = printed_docs tr @ evs"
    using assms(3)
    by (simp add: monitor_emitter_trace printed_docs_append printed_docs_map_Doc delivered_all)
qed

theorem each_event_handled_witness:
  "list_all continues [Yields [(''_id'', ''1'')], Yields [(''_id'', ''2'')], Timer]
   \<and> yielded [Yields [(''_id'', ''1'')], Yields [(''_id'', ''2'')], Timer]
       = [[(''_id'', ''1'')], [(''_id'', ''2'')]]
   \<and> list_all (passes (pipeline_or_default None)) [[(''_id'', ''1'')], [(''_id'', ''2'')]]
   \<and> monitorListingsUsingHasNext (Resolves ())
        ([Yields [(''_id'', ''1'')], Yields [(''_id'', ''2'')], Timer] @ Ends # [])
        (Some 30000) None []
      = Some (Returned,
          [Watch [] None, SetTimeout 30000,
           ConsoleLog (Doc [(''_id'', ''1'')]), ConsoleLog (Doc [(''_id'', ''2'')]),
           ConsoleLog (Msg ''Closing the change stream''), StreamClose])
   \<and> monitorListingsUsingEventEmitter (Resolves ())
        [[(''_id'', ''1'')], [(''_id'', ''2'')]] None (Some 30000) None []
      = (Returned,
          [Watch [] None, On ''change'', SetTimeout 30000,
           ConsoleLog (Doc [(''_id'', ''1'')]), ConsoleLog (Doc [(''_id'', ''2'')]),
           ConsoleLog (Msg ''Closing the change stream''), StreamClose])"
proof -
  have a: "list_all continues [Yields [(''_id'', ''1'')], Yields [(''_id'', ''2'')], Timer]"
    by simp
  have b: "yielded [Yields [(''_id'', ''1'')], Yields [(''_id'', ''2'')], Timer]
       = [[(''_id'', ''1'')], [(''_id'', ''2'')]]"
    by simp
  have c: "list_all (passes (pipeline_or_default None)) [[(''_id'', ''1'')], [(''_id'', ''2'')]]"
    by (simp add: pipeline_or_default_def passes_def)
  show ?thesis
    using a b c each_event_handled_once_in_arrival_order [OF a b c, of "[]" "Some 30000" "[]"]
    by (simp add: monitorListingsUsingHasNext_def monitorListingsUsingEventEmitter_def
        timeInMs_or_default_def pipeline_or_default_def closeChangeStream_def
        await_closeChangeStream_def timer_callback_def passes_def delivered_def
        emit_def on_def unhandled_error_def)
qed

section \<open>The three ways to consume the stream\<close>

text \<open>
  Claim C3. For every sequence of incoming change events (\<open>yielded pre\<close>; in the pull loop
  the timer may fire between two of them, and \<open>r\<close> is the way the stream ends: exhausted or
  with an error; for the listener and the piped stream, \<open>f\<close> and \<open>g\<close> say whether the stream
  emits an \<^verbatim>\<open>'error'\<close> after these events), the three monitor functions, called with the
  same pipeline and time, print the same sequence of documents.
\<close>

theorem three_styles_print_the_same_documents:
  assumes "list_all continues pre" and "\<not> continues r"
  shows "\<exists>c tr'. monitorListingsUsingHasNext (Resolves ()) (pre @ r # rest) t p tr = Some (c, tr')
       \<and> printed_docs tr'
           = printed_docs (snd (monitorListingsUsingEventEmitter (Resolves ()) (yielded pre) f t p tr))
       \<and> printed_docs (snd (monitorListingsUsingStreamAPI (Resolves ()) (yielded pre) g t p tr))
           = printed_docs (snd (monitorListingsUsingEventEmitter (Resolves ()) (yielded pre) f t p tr))"
proof -
  from monitor_hasNext_prefix [OF assms(1), of tr p t]
  obtain tr' where docs: "printed_docs tr' = printed_docs tr @ delivered (pipeline_or_default p) (yielded pre)"
    and run: "\<And>r rest. \<not> continues r \<Longrightarrow>
      monitorListingsUsingHasNext (Resolves ()) (pre @ r # rest) t p tr
        = hasNext_loop [r] (Timer \<in> set pre) tr'"
    by blast
  note em = monitor_emitter_docs [of "yielded pre" f t p tr]
  note st = monitor_stream_docs [of "yielded pre" g t p tr]
  show ?thesis
  proof (cases r)
    case Ends
    then show ?thesis using docs em st run [OF assms(2), of rest]
      by (intro exI [of _ Returned] exI [of _ tr']) simp
  next
    case (HasNextRejects err c)
    then show ?thesis using docs em st run [OF assms(2), of rest]
      by (cases "Timer \<in> set pre \<or> c")
        (auto simp: catch_block_def printed_docs_append)
  next
    case (NextRejects err c)
    then show ?thesis using docs em st run [OF assms(2), of rest]
      by (cases "Timer \<in> set pre \<or> c")
        (auto simp: catch_block_def printed_docs_append)
  qed (use assms(2) in simp_all)
qed

theorem three_styles_witness:
  "list_all continues [Yields [(''_id'', ''1'')], Yields [(''_id'', ''2'')], Timer]
   \<and> \<not> continues (HasNextRejects ''ChangeStream is closed'' False)
   \<and> printed_docs (snd (monitorListingsUsingEventEmitter (Resolves ())
        [[(''_id'', ''1'')], [(''_id'', ''2'')]] None (Some 30000) None []))
      = [[(''_id'', ''1'')], [(''_id'', ''2'')]]
   \<and> printed_docs (snd (monitorListingsUsingStreamAPI (Resolves ())
        [[(''_id'', ''1'')], [(''_id'', ''2'')]] None (Some 30000) None []))
      = [[(''_id'', ''1'')], [(''_id'', ''2'')]]
   \<and> map_option (\<lambda>run. printed_docs (snd run)) (monitorListingsUsingHasNext (Resolves ())
        ([Yields [(''_id'', ''1'')], Yields [(''_id'', ''2'')], Timer]
          @ HasNextRejects ''ChangeStream is closed'' False # [])
        (Some 30000) None [])
      = Some [[(''_id'', ''1'')], [(''_id'', ''2'')]]"
proof -
  have a: "list_all continues [Yields [(''_id'', ''1'')], Yields [(''_id'', ''2'')], Timer]"
    by simp
  have b: "\<not> continues (HasNextRejects ''ChangeStream is closed'' False)"
    by simp
  show ?thesis
    using a b three_styles_print_the_same_documents
      [OF a b, of "[]" "Some 30000" None "[]" None None]
    by (simp add: monitorListingsUsingHasNext_def monitorListingsUsingEventEmitter_def
        monitorListingsUsingStreamAPI_def
        timeInMs_or_default_def pipeline_or_default_def closeChangeStream_def
        await_closeChangeStream_def timer_callback_def passes_def delivered_def
        emit_def on_def catch_block_def unhandled_error_def)
qed

section \<open>The client is closed when main completes\<close>




section \<open>The pipeline of main is not used\<close>

text \<open>
  Claim C9. \<^verbatim>\<open>main\<close> calls \<^verbatim>\<open>monitorListingsUsingEventEmitter(client, 30000)\<close> without a
  pipeline, so the stream is opened with the default, empty pipeline, and the filter that
  \<^verbatim>\<open>main\<close> defines (\<open>main_pipeline\<close>) takes no part: when the client connects and the stream
  opens, every change made to the collection while the stream is open is printed, whatever
  its operation type and location, in arrival order. The witness prints a deletion and an
  insert in Porto, both of which \<open>main_pipeline\<close> rejects.
\<close>

theorem main_watches_without_its_pipeline:
  assumes "construct_reply w = Resolves ()" and "connect_reply w = Resolves ()"
    and "watch_reply w = Resolves ()"
  shows "printed_docs (script w) = changes w
       \<and> watch_calls (script w) = [Watch [] None]
       \<and> SetTimeout 30000 \<in> set (script w)"
proof (cases "stream_error w")
  case None
  obtain c where m: "main w =
     (c, [NewClient (uri (mongo_db_uri w)), ClientConnect,
          ConsoleLog (Msg ''Connected successfully to mongodb''),
          Watch [] None, On ''change'', SetTimeout 30000]
         @ map (\<lambda>ev. ConsoleLog (Doc ev)) (changes w)
         @ [ConsoleLog (Msg ''Closing the change stream''), StreamClose, ClientClose])"
    using assms None
    by (cases "close_reply w")
      (simp_all add: main_def main_try_def monitor_emitter_trace pipeline_or_default_def
        timeInMs_or_default_def delivered_def passes_def)
  show ?thesis
    by (cases c)
      (simp_all add: script_def m printed_docs_append printed_docs_map_Doc
        watch_calls_def watch_calls_map_Doc [unfolded watch_calls_def])
next
  case (Some e)
  have m: "main w =
     (Uncaught e, [NewClient (uri (mongo_db_uri w)), ClientConnect,
          ConsoleLog (Msg ''Connected successfully to mongodb''),
          Watch [] None, On ''change'', SetTimeout 30000]
         @ map (\<lambda>ev. ConsoleLog (Doc ev)) (changes w))"
    using assms Some
    by (simp add: main_def main_try_def monitor_emitter_fault pipeline_or_default_def
        timeInMs_or_default_def delivered_def passes_def)
  show ?thesis
    by (simp add: script_def m printed_docs_append printed_docs_map_Doc
        watch_calls_def watch_calls_map_Doc [unfolded watch_calls_def])
qed

theorem main_watches_without_its_pipeline_witness:
  "construct_reply \<lparr>mongo_db_uri = None, construct_reply = Resolves (),
       connect_reply = Resolves (), watch_reply = Resolves (),
       changes = [[(''operationType'', ''delete'')],
                  [(''operationType'', ''insert''),
                   (''fullDocument.address.country'', ''Portugal''),
                   (''fullDocument.address.market'', ''Porto'')]],
       stream_error = None, close_reply = Resolves ()\<rparr> = Resolves ()
   \<and> \<not> passes main_pipeline [(''operationType'', ''delete'')]
   \<and> \<not> passes main_pipeline [(''operationType'', ''insert''),
                   (''fullDocument.address.country'', ''Portugal''),
                   (''fullDocument.address.market'', ''Porto'')]
   \<and> printed_docs (script \<lparr>mongo_db_uri = None, construct_reply = Resolves (),
       connect_reply = Resolves (), watch_reply = Resolves (),
       changes = [[(''operationType'', ''delete'')],
                  [(''operationType'', ''insert''),
                   (''fullDocument.address.country'', ''Portugal''),
                   (''fullDocument.address.market'', ''Porto'')]],
       stream_error = None, close_reply = Resolves ()\<rparr>)
     = [[(''operationType'', ''delete'')],
        [(''operationType'', ''insert''),
         (''fullDocument.address.country'', ''Portugal''),
         (''fullDocument.address.market'', ''Porto'')]]"
  using main_watches_without_its_pipeline [of "\<lparr>mongo_db_uri = None, construct_reply = Resolves (),
       connect_reply = Resolves (), watch_reply = Resolves (),
       changes = [[(''operationType'', ''delete'')],
                  [(''operationType'', ''insert''),
                   (''fullDocument.address.country'', ''Portugal''),
                   (''fullDocument.address.market'', ''Porto'')]],
       stream_error = None, close_reply = Resolves ()\<rparr>"]
  by (simp add: main_pipeline_def passes_def)

end
